theory Spec2Isabelle
  imports Main
begin

section \<open>The gallery-card verification script\<close>

text \<open>
  The repository is one Python script,
  \<^verbatim>\<open>jules-scratch/verification/verify_gallery_card_changes.py\<close>:
  a function \<^verbatim>\<open>run(playwright)\<close> of eleven calls into the Playwright
  browser-automation library, executed inside \<^verbatim>\<open>with sync_playwright() as playwright\<close>.
  The script has no branch, no loop and no handler; everything it does is a call into the
  library. The model therefore records which calls are made, with which arguments and in
  which order, and takes the library's answer to each call as a parameter.
\<close>

subsection \<open>Data\<close>

text \<open>
  A locator as the script builds it: \<^verbatim>\<open>page.get_by_label(text)\<close> or
  \<^verbatim>\<open>page.get_by_role(role, name=...)\<close>. Building a locator is a pure constructor
  call on the client side; the page is only queried when an action is performed on it.
\<close>

datatype locator =
    Get_by_label string
  | Get_by_role string "string option"

text \<open>
  Exceptions that a library call may raise. The script defines none of its own and never
  inspects one. \<open>Error\<close> and \<open>TimeoutError\<close> are the library's two public classes;
  \<open>Error\<close> carries the message and \<open>TimeoutError\<close> the URL or selector that was waited
  for. \<open>Element_not_found\<close> is the "not found" condition that steps 3 and 4 of the
  specification name for a control that is not on the page; it carries the locator.
\<close>

datatype error = Error string | TimeoutError string | Element_not_found locator

text \<open>
  The calls into the library, with the arguments the call site passes. A keyword argument
  that a call site may leave out is an option: \<open>None\<close> means the argument is not passed
  and the library's default applies.
  \<^item> \<open>Sync_playwright_enter\<close>, \<open>Sync_playwright_exit\<close>: entering and leaving the
    \<^verbatim>\<open>with sync_playwright()\<close> block;
  \<^item> \<open>Launch headless\<close>: \<^verbatim>\<open>playwright.chromium.launch(headless=...)\<close>;
  \<^item> \<open>New_context\<close>: \<^verbatim>\<open>browser.new_context()\<close>;
  \<^item> \<open>New_page\<close>: \<^verbatim>\<open>context.new_page()\<close>;
  \<^item> \<open>Goto url\<close>: \<^verbatim>\<open>page.goto(url)\<close>;
  \<^item> \<open>Fill loc value\<close>: \<^verbatim>\<open>loc.fill(value)\<close>;
  \<^item> \<open>Click loc\<close>: \<^verbatim>\<open>loc.click()\<close>;
  \<^item> \<open>Wait_for_url url timeout\<close>: \<^verbatim>\<open>page.wait_for_url(url, timeout=...)\<close>;
  \<^item> \<open>Wait_for_selector selector timeout\<close>: \<^verbatim>\<open>page.wait_for_selector(selector, timeout=...)\<close>;
  \<^item> \<open>Screenshot path full_page\<close>: \<^verbatim>\<open>page.screenshot(path=..., full_page=...)\<close>;
  \<^item> \<open>Close\<close>: \<^verbatim>\<open>browser.close()\<close>.
\<close>

datatype call =
    Sync_playwright_enter
  | Launch "bool option"
  | New_context
  | New_page
  | Goto string
  | Fill locator string
  | Click locator
  | Wait_for_url string "nat option"
  | Wait_for_selector string "nat option"
  | Screenshot "string option" "bool option"
  | Close
  | Sync_playwright_exit

text \<open>The object a call is made on: the variables of the script, each assigned once.\<close>

datatype receiver = Playwright_obj | Browser_obj | Context_obj | Page_obj

fun receiver_of :: "call \<Rightarrow> receiver" where
  "receiver_of Sync_playwright_enter = Playwright_obj"
| "receiver_of (Launch h) = Playwright_obj"
| "receiver_of New_context = Browser_obj"
| "receiver_of New_page = Context_obj"
| "receiver_of (Goto u) = Page_obj"
| "receiver_of (Fill l v) = Page_obj"
| "receiver_of (Click l) = Page_obj"
| "receiver_of (Wait_for_url u t) = Page_obj"
| "receiver_of (Wait_for_selector s t) = Page_obj"
| "receiver_of (Screenshot p f) = Page_obj"
| "receiver_of Close = Browser_obj"
| "receiver_of Sync_playwright_exit = Playwright_obj"

type_synonym image = "nat list"

text \<open>
  The world outside the script: the calls made so far, each with the exception it raised
  (\<open>None\<close> when it returned), and the files on disk.
\<close>

record world =
  trace :: "(call \<times> error option) list"
  files :: "string \<rightharpoonup> image"

text \<open>
  The library and the application under test, as the script meets them: \<open>respond\<close> says
  for each call whether it returns or raises, \<open>shot\<close> is the image a screenshot yields.
  The script makes no call twice, so an answer per call loses no generality.
\<close>

record env =
  respond :: "call \<Rightarrow> error option"
  shot :: image

definition fresh :: "(string \<rightharpoonup> image) \<Rightarrow> world" where
  "fresh fs = \<lparr>trace = [], files = fs\<rparr>"

subsection \<open>Execution\<close>

text \<open>
  What a call that returns does to the files: \<^verbatim>\<open>page.screenshot(path=p)\<close> saves the
  image to \<open>p\<close>, replacing a file that is there; no other call of the script touches
  the disk.
\<close>

fun effect :: "env \<Rightarrow> call \<Rightarrow> (string \<rightharpoonup> image) \<Rightarrow> (string \<rightharpoonup> image)" where
  "effect ev (Screenshot (Some p) f) fs = fs(p \<mapsto> shot ev)"
| "effect ev c fs = fs"

text \<open>One call: it is recorded, and either raises or returns after its effect.\<close>

definition invoke :: "call \<Rightarrow> env \<Rightarrow> world \<Rightarrow> (error + unit) \<times> world" where
  "invoke c ev w =
     (case respond ev c of
        Some e \<Rightarrow> (Inl e, w\<lparr>trace := trace w @ [(c, Some e)]\<rparr>)
      | None \<Rightarrow> (Inr (), \<lparr>trace = trace w @ [(c, None)], files = effect ev c (files w)\<rparr>))"

text \<open>
  A block of statements, each a call: the first exception ends the block and is its
  result, as Python propagates it.
\<close>

fun block :: "call list \<Rightarrow> env \<Rightarrow> world \<Rightarrow> (error + unit) \<times> world" where
  "block [] ev w = (Inr (), w)"
| "block (c # cs) ev w =
     (case invoke c ev w of
        (Inl e, w') \<Rightarrow> (Inl e, w')
      | (Inr u, w') \<Rightarrow> block cs ev w')"

text \<open>The body of \<^verbatim>\<open>run\<close>, lines 4 to 21 of the script, statement by statement.\<close>

definition run_body :: "call list" where
  "run_body =
    [Launch (Some True),
     New_context,
     New_page,
     Goto ''http://localhost:3000/login'',
     Fill (Get_by_label ''Email'') ''photographer@yarrow.com'',
     Fill (Get_by_label ''Password'') ''yarrow'',
     Click (Get_by_role ''button'' (Some ''Login'')),
     Wait_for_url ''http://localhost:3000/dashboard'' None,
     Wait_for_selector ''.card'' (Some 10000),
     Screenshot (Some ''jules-scratch/verification/verification.png'') None,
     Close]"

definition run :: "env \<Rightarrow> world \<Rightarrow> (error + unit) \<times> world" where
  "run ev w = block run_body ev w"

text \<open>
  Lines 23 and 24: \<^verbatim>\<open>with sync_playwright() as playwright: run(playwright)\<close>.
  Python enters the context manager; if that raises, the body does not run. Otherwise the
  body runs and the manager's exit runs afterwards, whether the body returned or raised.
  The exit of the library's manager returns \<^verbatim>\<open>None\<close>, so an exception of the body
  is re-raised after it; an exception raised by the exit itself replaces it.
\<close>

definition main :: "env \<Rightarrow> world \<Rightarrow> (error + unit) \<times> world" where
  "main ev w =
     (case invoke Sync_playwright_enter ev w of
        (Inl e, w1) \<Rightarrow> (Inl e, w1)
      | (Inr u, w1) \<Rightarrow>
          (case run ev w1 of
             (r, w2) \<Rightarrow>
               (case invoke Sync_playwright_exit ev w2 of
                  (Inl e', w3) \<Rightarrow> (Inl e', w3)
                | (Inr u', w3) \<Rightarrow> (r, w3))))"

text \<open>
  The interpreter's exit status: 0 when the module body returns, 1 when an exception
  reaches the top level.
\<close>

fun exit_status :: "error + unit \<Rightarrow> nat" where
  "exit_status (Inl e) = 1"
| "exit_status (Inr u) = 0"

subsection \<open>Observations on a run\<close>

definition calls_of :: "world \<Rightarrow> call list" where
  "calls_of w = map fst (trace w)"

text \<open>The calls of a block that are reached: up to and including the first that raises.\<close>

fun reached :: "env \<Rightarrow> call list \<Rightarrow> call list" where
  "reached ev [] = []"
| "reached ev (c # cs) =
     c # (case respond ev c of None \<Rightarrow> reached ev cs | Some e \<Rightarrow> [])"

text \<open>The exception that ends a block, if one does.\<close>

fun first_error :: "env \<Rightarrow> call list \<Rightarrow> error option" where
  "first_error ev [] = None"
| "first_error ev (c # cs) =
     (case respond ev c of Some e \<Rightarrow> Some e | None \<Rightarrow> first_error ev cs)"

text \<open>The files a block leaves behind: the effects of its calls that returned.\<close>

fun effects :: "env \<Rightarrow> call list \<Rightarrow> (string \<rightharpoonup> image) \<Rightarrow> (string \<rightharpoonup> image)" where
  "effects ev [] fs = fs"
| "effects ev (c # cs) fs =
     (case respond ev c of None \<Rightarrow> effects ev cs (effect ev c fs) | Some e \<Rightarrow> fs)"

fun is_screenshot :: "call \<Rightarrow> bool" where
  "is_screenshot (Screenshot p f) = True"
| "is_screenshot c = False"

text \<open>
  Whether a call captures the whole scrollable page. The library's \<^verbatim>\<open>full_page\<close>
  option defaults to false: a screenshot call that does not pass it captures the viewport.
\<close>

fun full_page_capture :: "call \<Rightarrow> bool" where
  "full_page_capture (Screenshot p (Some b)) = b"
| "full_page_capture c = False"


text \<open>The calls made after the first call that raised.\<close>

fun after_failure :: "(call \<times> error option) list \<Rightarrow> call list" where
  "after_failure [] = []"
| "after_failure ((c, None) # xs) = after_failure xs"
| "after_failure ((c, Some e) # xs) = map fst xs"

text \<open>The locator a call acts through, for the calls that have one.\<close>

fun locator_of :: "call \<Rightarrow> locator option" where
  "locator_of (Fill l v) = Some l"
| "locator_of (Click l) = Some l"
| "locator_of c = None"

subsection \<open>The application and the library\<close>

text \<open>
  Modelled from the spec: the target application of section 6, which is not part of the
  repository. \<open>resolves\<close> says which locators find a control on the login page,
  \<open>location_after_login\<close> is the URL the browser is at once the form has been submitted,
  and \<open>appears_after s\<close> is the time in milliseconds after which the first element
  matching the selector \<open>s\<close> is in the document (\<open>None\<close>: no such element ever appears).
\<close>

record app =
  resolves :: "locator \<Rightarrow> bool"
  location_after_login :: string
  appears_after :: "string \<Rightarrow> nat option"

text \<open>
  Modelled from the spec: the answers of the browser-automation library where steps 3 to 6
  of the specification fix them; the library is not part of the repository. A fill or a
  click through a locator that finds no control raises the "not found" condition. A wait
  for a URL other than the one the browser is at raises a timeout. A wait for a selector
  raises a timeout when no matching element ever appears, or none within the timeout that
  the call passes. Every other answer is left to \<open>ev\<close>.
\<close>

definition library :: "app \<Rightarrow> env \<Rightarrow> env" where
  "library a ev = ev\<lparr>respond := (\<lambda>c.
     case c of
       Fill l v \<Rightarrow> if resolves a l then respond ev c else Some (Element_not_found l)
     | Click l \<Rightarrow> if resolves a l then respond ev c else Some (Element_not_found l)
     | Wait_for_url u t \<Rightarrow>
         if location_after_login a = u then respond ev c else Some (TimeoutError u)
     | Wait_for_selector s t \<Rightarrow>
         (case appears_after a s of
            None \<Rightarrow> Some (TimeoutError s)
          | Some d \<Rightarrow>
              (case t of
                 None \<Rightarrow> respond ev c
               | Some b \<Rightarrow> if d \<le> b then respond ev c else Some (TimeoutError s)))
     | _ \<Rightarrow> respond ev c)\<rparr>"

text \<open>Concrete surroundings for evaluating the script.\<close>

definition app_ok :: app where
  "app_ok =
     \<lparr>resolves = (\<lambda>l. l \<in> set [Get_by_label ''Email'', Get_by_label ''Password'',
                                 Get_by_role ''button'' (Some ''Login'')]),
      location_after_login = ''http://localhost:3000/dashboard'',
      appears_after = (\<lambda>s. if s = ''.card'' then Some 350 else None)\<rparr>"


definition env_ok :: env where
  "env_ok = \<lparr>respond = (\<lambda>c. None), shot = [137, 80, 78, 71]\<rparr>"

definition env_fail :: "call \<Rightarrow> error \<Rightarrow> env" where
  "env_fail c e = \<lparr>respond = (\<lambda>x. if x = c then Some e else None), shot = [137, 80, 78, 71]\<rparr>"

section \<open>Properties\<close>

lemma block_trace:
  "trace (snd (block cs ev w)) = trace w @ map (\<lambda>c. (c, respond ev c)) (reached ev cs)"
  by (induction cs arbitrary: w) (auto simp: invoke_def split: option.splits)

lemma block_result:
  "fst (block cs ev w) = (case first_error ev cs of None \<Rightarrow> Inr () | Some e \<Rightarrow> Inl e)"
  by (induction cs arbitrary: w) (auto simp: invoke_def split: option.splits)

lemma block_files: "files (snd (block cs ev w)) = effects ev cs (files w)"
  by (induction cs arbitrary: w) (auto simp: invoke_def split: option.splits)

lemma main_trace:
  "trace (snd (main ev (fresh fs))) =
     (case respond ev Sync_playwright_enter of
        Some e \<Rightarrow> [(Sync_playwright_enter, Some e)]
      | None \<Rightarrow>
          (Sync_playwright_enter, None) # map (\<lambda>c. (c, respond ev c)) (reached ev run_body)
            @ [(Sync_playwright_exit, respond ev Sync_playwright_exit)])"
  by (simp add: main_def run_def invoke_def fresh_def split_beta block_trace
      split: option.splits)

lemma main_result:
  "fst (main ev (fresh fs)) =
     (case respond ev Sync_playwright_enter of
        Some e \<Rightarrow> Inl e
      | None \<Rightarrow>
         (case respond ev Sync_playwright_exit of
            Some e' \<Rightarrow> Inl e'
          | None \<Rightarrow> (case first_error ev run_body of None \<Rightarrow> Inr () | Some e \<Rightarrow> Inl e)))"
  by (simp add: main_def run_def invoke_def fresh_def split_beta block_result
      split: option.splits)

lemma main_files:
  "files (snd (main ev (fresh fs))) =
     (case respond ev Sync_playwright_enter of
        Some e \<Rightarrow> fs
      | None \<Rightarrow> effects ev run_body fs)"
  by (simp add: main_def run_def invoke_def fresh_def split_beta block_files
      split: option.splits)

lemma reached_take: "\<exists>k \<le> length cs. reached ev cs = take k cs"
proof (induction cs)
  case Nil
  then show ?case by simp
next
  case (Cons c cs)
  show ?case
  proof (cases "respond ev c")
    case None
    from Cons obtain k where "k \<le> length cs" "reached ev cs = take k cs" by blast
    with None have "Suc k \<le> length (c # cs) \<and> reached ev (c # cs) = take (Suc k) (c # cs)"
      by simp
    then show ?thesis by blast
  next
    case (Some e)
    then have "Suc 0 \<le> length (c # cs) \<and> reached ev (c # cs) = take (Suc 0) (c # cs)"
      by simp
    then show ?thesis by blast
  qed
qed

lemma run_trace:
  "trace (snd (run ev (fresh fs))) = map (\<lambda>c. (c, respond ev c)) (reached ev run_body)"
  by (simp add: run_def block_trace fresh_def)

lemma run_result:
  "fst (run ev w) = (case first_error ev run_body of None \<Rightarrow> Inr () | Some e \<Rightarrow> Inl e)"
  by (simp add: run_def block_result)

lemma reached_butlast_returned: "list_all (\<lambda>c. respond ev c = None) (butlast (reached ev cs))"
  by (induction cs) (auto split: option.splits)

lemma reached_all_returned: "list_all (\<lambda>c. respond ev c = None) cs \<Longrightarrow> reached ev cs = cs"
  by (induction cs) auto

lemma first_error_all_returned:
  "list_all (\<lambda>c. respond ev c = None) cs \<Longrightarrow> first_error ev cs = None"
  by (induction cs) auto

subsection \<open>Calls that raise\<close>

lemma raised_is_first_error:
  "(c, Some e) \<in> set (map (\<lambda>c. (c, respond ev c)) (reached ev cs)) \<Longrightarrow>
     first_error ev cs = Some e"
  by (induction cs) (auto split: option.splits)

lemma after_failure_block:
  "after_failure (map (\<lambda>c. (c, respond ev c)) (reached ev cs) @ rest) =
     (case first_error ev cs of None \<Rightarrow> after_failure rest | Some e \<Rightarrow> map fst rest)"
  by (induction cs) (auto split: option.splits)

lemma raised_before:
  "(c, Some e) \<in> set (map (\<lambda>c. (c, respond ev c)) (reached ev cs)) \<Longrightarrow>
   c \<in> set (takeWhile (\<lambda>x. \<not> P x) cs) \<Longrightarrow> \<not> list_ex P (reached ev cs)"
  by (induction cs) (auto split: option.splits if_splits)

lemma effects_no_screenshot:
  "\<not> list_ex is_screenshot (reached ev cs) \<Longrightarrow> effects ev cs fs = fs"
proof (induction cs arbitrary: fs)
  case Nil
  then show ?case by simp
next
  case (Cons c cs)
  then show ?case by (cases c) (auto split: option.splits)
qed

lemma after_failure_exit: "after_failure [(Sync_playwright_exit, r)] = []"
  by (cases r) simp_all

lemma main_after_failure:
  "after_failure (trace (snd (main ev (fresh fs)))) =
     (case respond ev Sync_playwright_enter of
        Some e \<Rightarrow> []
      | None \<Rightarrow> (case first_error ev run_body of None \<Rightarrow> [] | Some e \<Rightarrow> [Sync_playwright_exit]))"
  by (simp add: main_trace after_failure_block after_failure_exit split: option.splits)

lemma main_raised_in_body:
  assumes "(c, Some e) \<in> set (trace (snd (main ev (fresh fs))))"
    and "c \<noteq> Sync_playwright_enter" and "c \<noteq> Sync_playwright_exit"
  shows "respond ev Sync_playwright_enter = None"
    and "(c, Some e) \<in> set (map (\<lambda>c. (c, respond ev c)) (reached ev run_body))"
  using assms by (auto simp add: main_trace split: option.splits)

lemma main_failure_result:
  assumes "(c, Some e) \<in> set (trace (snd (main ev (fresh fs))))"
  shows "fst (main ev (fresh fs)) =
           (case respond ev Sync_playwright_enter of
              Some e0 \<Rightarrow> Inl e0
            | None \<Rightarrow> (case respond ev Sync_playwright_exit of Some e' \<Rightarrow> Inl e' | None \<Rightarrow> Inl e))"
proof (cases "respond ev Sync_playwright_enter")
  case (Some e0)
  then show ?thesis by (simp add: main_result)
next
  case enter: None
  show ?thesis
  proof (cases "respond ev Sync_playwright_exit")
    case (Some e')
    with enter show ?thesis by (simp add: main_result)
  next
    case None
    with enter assms
    have "(c, Some e) \<in> set (map (\<lambda>c. (c, respond ev c)) (reached ev run_body))"
      by (auto simp add: main_trace)
    then have "first_error ev run_body = Some e" by (rule raised_is_first_error)
    with enter None show ?thesis by (simp add: main_result)
  qed
qed

lemma main_failure_exit_status:
  assumes "(c, Some e) \<in> set (trace (snd (main ev (fresh fs))))"
  shows "exit_status (fst (main ev (fresh fs))) = 1"
  by (simp add: main_failure_result [OF assms] split: option.splits)

lemma main_failure_propagates:
  assumes "(c, Some e) \<in> set (trace (snd (main ev (fresh fs))))"
    and "respond ev Sync_playwright_enter = None"
    and "respond ev Sync_playwright_exit = None"
  shows "fst (main ev (fresh fs)) = Inl e"
  using assms(2,3) by (simp add: main_failure_result [OF assms(1)])

lemma main_no_call_before:
  assumes "(c, Some e) \<in> set (trace (snd (main ev (fresh fs))))"
    and "c \<in> set (takeWhile (\<lambda>x. \<not> P x) run_body)"
    and "\<not> P Sync_playwright_enter" and "\<not> P Sync_playwright_exit"
  shows "\<not> list_ex P (calls_of (snd (main ev (fresh fs))))"
proof -
  from assms(2) have "c \<in> set run_body" by (rule set_takeWhileD [THEN conjunct1])
  then have ne: "c \<noteq> Sync_playwright_enter" "c \<noteq> Sync_playwright_exit"
    by (auto simp add: run_body_def)
  from main_raised_in_body [OF assms(1) ne]
  have enter: "respond ev Sync_playwright_enter = None"
    and inb: "(c, Some e) \<in> set (map (\<lambda>c. (c, respond ev c)) (reached ev run_body))"
    by simp_all
  from raised_before [OF inb assms(2)] have "\<not> list_ex P (reached ev run_body)" .
  with enter assms(3,4) show ?thesis
    by (simp add: calls_of_def main_trace comp_def list_ex_iff)
qed

lemma main_files_no_screenshot:
  assumes "\<not> list_ex is_screenshot (calls_of (snd (main ev (fresh fs))))"
  shows "files (snd (main ev (fresh fs))) = fs"
proof (cases "respond ev Sync_playwright_enter")
  case (Some e0)
  then show ?thesis by (simp add: main_files)
next
  case None
  with assms have "\<not> list_ex is_screenshot (reached ev run_body)"
    by (simp add: calls_of_def main_trace comp_def list_ex_iff)
  then have "effects ev run_body fs = fs" by (rule effects_no_screenshot)
  with None show ?thesis by (simp add: main_files)
qed

lemma reached_subset: "set (reached ev cs) \<subseteq> set cs"
  by (induction cs) (auto split: option.splits)

lemma raised_in_run_body:
  assumes "(c, Some e) \<in> set (trace (snd (main ev (fresh fs))))"
    and "c \<noteq> Sync_playwright_enter" and "c \<noteq> Sync_playwright_exit"
  shows "c \<in> set run_body"
  using main_raised_in_body(2) [OF assms] reached_subset [of ev run_body] by auto






subsection \<open>The order of the steps\<close>

text \<open>
  Claim C1. The runner executes its steps in one fixed linear order: acquire a headless
  isolated session (launch, new context, new page), open the target page, fill the Email
  field, fill the Password field, click the Login button, wait for the post-login URL,
  wait for a gallery card, capture the screenshot, release the session. When every call
  returns, exactly these calls are made in exactly this order and \<open>run\<close> returns. Whatever
  the library answers, the calls made are an initial segment of that sequence, and every
  call that is followed by another one has returned: no step starts before the previous
  one has resolved, and none is skipped.
\<close>

theorem run_steps_in_fixed_order:
  "(list_all (\<lambda>c. respond ev c = None) run_body \<longrightarrow>
      fst (run ev (fresh fs)) = Inr () \<and>
      calls_of (snd (run ev (fresh fs))) =
        [Launch (Some True),
         New_context,
         New_page,
         Goto ''http://localhost:3000/login'',
         Fill (Get_by_label ''Email'') ''photographer@yarrow.com'',
         Fill (Get_by_label ''Password'') ''yarrow'',
         Click (Get_by_role ''button'' (Some ''Login'')),
         Wait_for_url ''http://localhost:3000/dashboard'' None,
         Wait_for_selector ''.card'' (Some 10000),
         Screenshot (Some ''jules-scratch/verification/verification.png'') None,
         Close]) \<and>
   (\<exists>k \<le> length run_body. calls_of (snd (run ev (fresh fs))) = take k run_body) \<and>
   list_all (\<lambda>x. snd x = None) (butlast (trace (snd (run ev (fresh fs)))))"
proof (intro conjI impI)
  assume ok: "list_all (\<lambda>c. respond ev c = None) run_body"
  show "fst (run ev (fresh fs)) = Inr ()"
    by (simp add: run_result first_error_all_returned [OF ok])
  show "calls_of (snd (run ev (fresh fs))) =
        [Launch (Some True),
         New_context,
         New_page,
         Goto ''http://localhost:3000/login'',
         Fill (Get_by_label ''Email'') ''photographer@yarrow.com'',
         Fill (Get_by_label ''Password'') ''yarrow'',
         Click (Get_by_role ''button'' (Some ''Login'')),
         Wait_for_url ''http://localhost:3000/dashboard'' None,
         Wait_for_selector ''.card'' (Some 10000),
         Screenshot (Some ''jules-scratch/verification/verification.png'') None,
         Close]"
    by (simp add: calls_of_def run_trace reached_all_returned [OF ok] comp_def)
      (simp add: run_body_def)
next
  show "\<exists>k \<le> length run_body. calls_of (snd (run ev (fresh fs))) = take k run_body"
    using reached_take [of run_body ev] by (simp add: calls_of_def run_trace comp_def)
next
  show "list_all (\<lambda>x. snd x = None) (butlast (trace (snd (run ev (fresh fs)))))"
    using reached_butlast_returned [of ev run_body]
    by (simp add: run_trace map_butlast [symmetric] list.pred_map comp_def)
qed

theorem run_steps_in_fixed_order_witness:
  "list_all (\<lambda>c. respond env_ok c = None) run_body \<and>
   fst (run env_ok (fresh Map.empty)) = Inr () \<and>
   calls_of (snd (run env_ok (fresh Map.empty))) = run_body"
  using run_steps_in_fixed_order [of env_ok Map.empty] by (simp add: env_ok_def run_body_def)

subsection \<open>Release of the session\<close>




subsection \<open>The screenshot\<close>

text \<open>
  Claim C3, as the specification states it: the capture step takes a full-page screenshot.
  Line 19 is \<^verbatim>\<open>page.screenshot(path=...)\<close> with no \<^verbatim>\<open>full_page\<close> argument, so the
  library's default applies and the viewport is captured. On the run in which every call
  returns, the one screenshot call passes the path only and no call is a full-page capture.
\<close>

theorem screenshot_not_full_page_counterexample:
  "fst (main env_ok (fresh Map.empty)) = Inr () \<and>
   filter is_screenshot (calls_of (snd (main env_ok (fresh Map.empty)))) =
     [Screenshot (Some ''jules-scratch/verification/verification.png'') None] \<and>
   \<not> list_ex full_page_capture (calls_of (snd (main env_ok (fresh Map.empty))))"
  by (simp add: calls_of_def main_trace main_result env_ok_def run_body_def)

text \<open>
  Claim C3, amended. Every screenshot call of every run passes the one fixed path and no
  \<^verbatim>\<open>full_page\<close> option (a capture of the viewport, by the library's default). When the
  call returns, the files afterwards are the files before with the fixed path bound to the
  new image: what a prior run left at that path is replaced, and no other file appears or
  changes.
\<close>

theorem screenshot_fixed_path_overwrites:
  "(Screenshot p f, r) \<in> set (trace (snd (main ev (fresh fs)))) \<longrightarrow>
     p = Some ''jules-scratch/verification/verification.png'' \<and> f = None \<and>
     \<not> full_page_capture (Screenshot p f) \<and>
     (r = None \<longrightarrow>
        files (snd (main ev (fresh fs))) =
          fs(''jules-scratch/verification/verification.png'' \<mapsto> shot ev))"
  by (auto simp add: main_trace main_files run_body_def split: option.splits)

theorem screenshot_fixed_path_overwrites_witness:
  "(Screenshot (Some ''jules-scratch/verification/verification.png'') None, None)
     \<in> set (trace (snd (main env_ok
         (fresh [''jules-scratch/verification/verification.png'' \<mapsto> [1, 2, 3],
                 ''notes.txt'' \<mapsto> [7]])))) \<and>
   files (snd (main env_ok
         (fresh [''jules-scratch/verification/verification.png'' \<mapsto> [1, 2, 3],
                 ''notes.txt'' \<mapsto> [7]]))) =
     [''jules-scratch/verification/verification.png'' \<mapsto> [137, 80, 78, 71],
      ''notes.txt'' \<mapsto> [7]]"
  using screenshot_fixed_path_overwrites
    [of "Some ''jules-scratch/verification/verification.png''" None None env_ok
      "[''jules-scratch/verification/verification.png'' \<mapsto> [1, 2, 3], ''notes.txt'' \<mapsto> [7]]"]
  by (simp add: main_trace env_ok_def run_body_def fun_upd_twist)

subsection \<open>The first navigation\<close>

text \<open>
  Claim C10. The initial navigation of every run targets
  \<^verbatim>\<open>http://localhost:3000/login\<close>, the login path, and not the bare base URL
  \<^verbatim>\<open>http://localhost:3000\<close>: every navigation call of a run has that URL, and the call
  is made as soon as the session and the page have been acquired.
\<close>

theorem initial_navigation_targets_login:
  "((Goto u, r) \<in> set (trace (snd (main ev (fresh fs)))) \<longrightarrow>
      u = ''http://localhost:3000/login'' \<and> u \<noteq> ''http://localhost:3000'') \<and>
   (list_all (\<lambda>c. respond ev c = None)
      [Sync_playwright_enter, Launch (Some True), New_context, New_page] \<longrightarrow>
      (Goto ''http://localhost:3000/login'', respond ev (Goto ''http://localhost:3000/login''))
        \<in> set (trace (snd (main ev (fresh fs)))))"
  by (auto simp add: main_trace run_body_def split: option.splits)

theorem initial_navigation_targets_login_witness:
  "(Goto ''http://localhost:3000/login'', None)
     \<in> set (trace (snd (main env_ok (fresh Map.empty)))) \<and>
   ''http://localhost:3000/login'' \<noteq> ''http://localhost:3000''"
  using initial_navigation_targets_login [of "''http://localhost:3000/login''" None env_ok Map.empty]
  by (simp add: env_ok_def)

subsection \<open>No artifact before the waits\<close>




subsection \<open>The login form\<close>



subsection \<open>The content-readiness wait\<close>

lemma selector_wait_as_written:
  "((Wait_for_selector s t, r) \<in> set (trace (snd (main ev (fresh fs)))) \<longrightarrow>
      s = ''.card'' \<and> t = Some 10000) \<and>
   ((Screenshot p f, r') \<in> set (trace (snd (main ev (fresh fs)))) \<longrightarrow>
      (Wait_for_selector ''.card'' (Some 10000), None) \<in> set (trace (snd (main ev (fresh fs)))))"
  by (auto simp add: main_trace run_body_def split: option.splits)

lemma selector_wait_failure:
  assumes "(Wait_for_selector s t, Some e) \<in> set (trace (snd (main ev (fresh fs))))"
  shows "exit_status (fst (main ev (fresh fs))) = 1 \<and>
      (respond ev Sync_playwright_exit = None \<longrightarrow> fst (main ev (fresh fs)) = Inl e) \<and>
      \<not> list_ex is_screenshot (calls_of (snd (main ev (fresh fs)))) \<and>
      files (snd (main ev (fresh fs))) = fs"
proof -
  have ne: "Wait_for_selector s t \<noteq> Sync_playwright_enter"
    "Wait_for_selector s t \<noteq> Sync_playwright_exit" by simp_all
  have "Wait_for_selector s t \<in> set run_body" using raised_in_run_body [OF assms ne] .
  then have before: "Wait_for_selector s t \<in> set (takeWhile (\<lambda>x. \<not> is_screenshot x) run_body)"
    by (auto simp add: run_body_def)
  have no: "\<not> list_ex is_screenshot (calls_of (snd (main ev (fresh fs))))"
    using main_no_call_before [OF assms before] by simp
  moreover have "respond ev Sync_playwright_exit = None \<longrightarrow> fst (main ev (fresh fs)) = Inl e"
    using main_failure_propagates [OF assms main_raised_in_body(1) [OF assms ne]] by simp
  ultimately show ?thesis
    using main_failure_exit_status [OF assms] main_files_no_screenshot [OF no] by simp
qed

text \<open>
  Claim C6. The content-readiness wait is \<^verbatim>\<open>page.wait_for_selector(".card", timeout=10000)\<close>:
  every selector wait of every run has the selector \<^verbatim>\<open>.card\<close> and the explicit
  timeout 10000 (the library counts in milliseconds: 10 seconds), and a screenshot is taken
  only after this wait has returned. When the wait raises (no matching element within the
  bound, a timeout for the library), the run fails: the exit status is 1, the exception is
  the one the run ends with, no screenshot call is made and the files are unchanged.
\<close>

theorem content_wait_card_selector_10s:
  "((Wait_for_selector s t, r) \<in> set (trace (snd (main ev (fresh fs)))) \<longrightarrow>
      s = ''.card'' \<and> t = Some 10000) \<and>
   ((Screenshot p f, r') \<in> set (trace (snd (main ev (fresh fs)))) \<longrightarrow>
      (Wait_for_selector ''.card'' (Some 10000), None) \<in> set (trace (snd (main ev (fresh fs))))) \<and>
   ((Wait_for_selector s t, Some e) \<in> set (trace (snd (main ev (fresh fs)))) \<longrightarrow>
      exit_status (fst (main ev (fresh fs))) = 1 \<and>
      (respond ev Sync_playwright_exit = None \<longrightarrow> fst (main ev (fresh fs)) = Inl e) \<and>
      \<not> list_ex is_screenshot (calls_of (snd (main ev (fresh fs)))) \<and>
      files (snd (main ev (fresh fs))) = fs)"
  using selector_wait_as_written [of s t r ev fs p f r'] selector_wait_failure [of s t e ev fs]
  by blast

theorem content_wait_card_selector_10s_witness:
  "(Wait_for_selector ''.card'' (Some 10000), Some (TimeoutError ''Timeout 10000ms exceeded''))
      \<in> set (trace (snd (main (env_fail (Wait_for_selector ''.card'' (Some 10000))
                                  (TimeoutError ''Timeout 10000ms exceeded''))
                            (fresh Map.empty)))) \<and>
   fst (main (env_fail (Wait_for_selector ''.card'' (Some 10000))
                (TimeoutError ''Timeout 10000ms exceeded''))
          (fresh Map.empty)) = Inl (TimeoutError ''Timeout 10000ms exceeded'') \<and>
   files (snd (main (env_fail (Wait_for_selector ''.card'' (Some 10000))
                      (TimeoutError ''Timeout 10000ms exceeded''))
                (fresh Map.empty))) = Map.empty"
  using content_wait_card_selector_10s
    [where ev = "env_fail (Wait_for_selector ''.card'' (Some 10000))
                   (TimeoutError ''Timeout 10000ms exceeded'')"
       and fs = Map.empty and s = "''.card''" and t = "Some 10000"
       and e = "TimeoutError ''Timeout 10000ms exceeded''"]
  by (simp add: main_trace env_fail_def run_body_def)

subsection \<open>The post-login wait\<close>

text \<open>
  Claim C7. The post-login wait is \<^verbatim>\<open>page.wait_for_url("http://localhost:3000/dashboard")\<close>:
  every URL wait of every run has exactly that URL and passes no timeout, so the library's
  default applies. The wait blocks the run: the selector wait that follows is made only
  after the URL wait has returned. The wait is reached whenever every earlier call returns.
\<close>

theorem post_login_wait_exact_url_no_timeout:
  "((Wait_for_url u t, r) \<in> set (trace (snd (main ev (fresh fs)))) \<longrightarrow>
      u = ''http://localhost:3000/dashboard'' \<and> t = None) \<and>
   ((Wait_for_selector s t', r') \<in> set (trace (snd (main ev (fresh fs)))) \<longrightarrow>
      (Wait_for_url ''http://localhost:3000/dashboard'' None, None)
        \<in> set (trace (snd (main ev (fresh fs))))) \<and>
   (list_all (\<lambda>c. respond ev c = None)
      (Sync_playwright_enter # takeWhile (\<lambda>c. c \<noteq> Wait_for_url ''http://localhost:3000/dashboard'' None) run_body) \<longrightarrow>
      (Wait_for_url ''http://localhost:3000/dashboard'' None,
       respond ev (Wait_for_url ''http://localhost:3000/dashboard'' None))
        \<in> set (trace (snd (main ev (fresh fs)))))"
  by (auto simp add: main_trace run_body_def split: option.splits)

theorem post_login_wait_exact_url_no_timeout_witness:
  "list_all (\<lambda>c. respond env_ok c = None)
      (Sync_playwright_enter # takeWhile (\<lambda>c. c \<noteq> Wait_for_url ''http://localhost:3000/dashboard'' None) run_body) \<and>
   (Wait_for_url ''http://localhost:3000/dashboard'' None, None)
        \<in> set (trace (snd (main env_ok (fresh Map.empty))))"
  using post_login_wait_exact_url_no_timeout [where ev = env_ok and fs = Map.empty]
  by (simp add: env_ok_def run_body_def)

subsection \<open>Propagation of failures\<close>

lemma exit_not_in_body: "Sync_playwright_exit \<notin> set (reached ev run_body)"
  using reached_subset [of ev run_body] by (auto simp add: run_body_def)

lemma enter_not_in_body: "Sync_playwright_enter \<notin> set (reached ev run_body)"
  using reached_subset [of ev run_body] by (auto simp add: run_body_def)

lemma distinct_reached: "distinct cs \<Longrightarrow> distinct (reached ev cs)"
  using reached_take [of cs ev] by auto

lemma distinct_run_body: "distinct run_body"
  by (simp add: run_body_def)

lemma main_calls_distinct: "distinct (calls_of (snd (main ev (fresh fs))))"
  using distinct_reached [OF distinct_run_body, of ev] exit_not_in_body [of ev]
    enter_not_in_body [of ev]
  by (simp add: calls_of_def main_trace comp_def split: option.splits)

lemma main_after_failure_subset:
  "set (after_failure (trace (snd (main ev (fresh fs))))) \<subseteq> {Sync_playwright_exit}"
  by (auto simp add: main_after_failure split: option.splits)

lemma main_failure_of_scope:
  assumes "(c, Some e) \<in> set (trace (snd (main ev (fresh fs))))"
    and "c = Sync_playwright_enter \<or> c = Sync_playwright_exit
         \<or> respond ev Sync_playwright_exit = None"
  shows "fst (main ev (fresh fs)) = Inl e"
proof (cases "respond ev Sync_playwright_enter")
  case (Some e0)
  with assms(1) have "e0 = e" by (simp add: main_trace)
  with Some show ?thesis by (simp add: main_result)
next
  case None
  from assms(2) show ?thesis
  proof (elim disjE)
    assume "c = Sync_playwright_enter"
    with None assms(1) enter_not_in_body [of ev] show ?thesis
      by (auto simp add: main_trace)
  next
    assume "c = Sync_playwright_exit"
    with None assms(1) exit_not_in_body [of ev]
    have "respond ev Sync_playwright_exit = Some e" by (auto simp add: main_trace)
    with None show ?thesis by (simp add: main_result)
  next
    assume "respond ev Sync_playwright_exit = None"
    with None show ?thesis by (rule main_failure_propagates [OF assms(1)])
  qed
qed

lemma main_success_all_returned:
  assumes "fst (main ev (fresh fs)) = Inr ()"
  shows "list_all (\<lambda>x. snd x = None) (trace (snd (main ev (fresh fs))))"
proof -
  have "snd x = None" if "x \<in> set (trace (snd (main ev (fresh fs))))" for x
  proof (cases "snd x")
    case None
    then show ?thesis .
  next
    case (Some e)
    with that have "(fst x, Some e) \<in> set (trace (snd (main ev (fresh fs))))"
      by (metis prod.collapse)
    from main_failure_exit_status [OF this] assms show ?thesis by simp
  qed
  then show ?thesis by (simp add: list_all_iff)
qed

text \<open>
  Claim C8. No error of any step is caught or retried. A call that raises makes the run
  end with an exception and exit status 1; the exception is the one raised, unless the exit
  of the \<^verbatim>\<open>with\<close> block raises one of its own afterwards. A run returns normally
  only when every call it made returned. After the first call that raises nothing follows
  but the exit of the \<^verbatim>\<open>with\<close> block (no resumption, no branch), and no call
  is made twice (no retry).
\<close>

theorem failures_propagate_unhandled:
  "((c, Some e) \<in> set (trace (snd (main ev (fresh fs)))) \<longrightarrow>
      exit_status (fst (main ev (fresh fs))) = 1 \<and>
      (c = Sync_playwright_enter \<or> c = Sync_playwright_exit
         \<or> respond ev Sync_playwright_exit = None \<longrightarrow>
       fst (main ev (fresh fs)) = Inl e)) \<and>
   (fst (main ev (fresh fs)) = Inr () \<longrightarrow>
      list_all (\<lambda>x. snd x = None) (trace (snd (main ev (fresh fs))))) \<and>
   set (after_failure (trace (snd (main ev (fresh fs))))) \<subseteq> {Sync_playwright_exit} \<and>
   distinct (calls_of (snd (main ev (fresh fs))))"
  using main_failure_exit_status [of c e ev fs] main_failure_of_scope [of c e ev fs]
    main_success_all_returned [of ev fs] main_after_failure_subset [of ev fs]
    main_calls_distinct [of ev fs]
  by blast

theorem failures_propagate_unhandled_witness:
  "(Goto ''http://localhost:3000/login'', Some (Error ''net::ERR_CONNECTION_REFUSED''))
     \<in> set (trace (snd (main (env_fail (Goto ''http://localhost:3000/login'')
                                 (Error ''net::ERR_CONNECTION_REFUSED''))
                           (fresh Map.empty)))) \<and>
   respond (env_fail (Goto ''http://localhost:3000/login'') (Error ''net::ERR_CONNECTION_REFUSED''))
     Sync_playwright_exit = None \<and>
   exit_status (fst (main (env_fail (Goto ''http://localhost:3000/login'')
                             (Error ''net::ERR_CONNECTION_REFUSED''))
                       (fresh Map.empty))) = 1 \<and>
   fst (main (env_fail (Goto ''http://localhost:3000/login'')
                (Error ''net::ERR_CONNECTION_REFUSED''))
          (fresh Map.empty)) = Inl (Error ''net::ERR_CONNECTION_REFUSED'')"
  using failures_propagate_unhandled
    [where ev = "env_fail (Goto ''http://localhost:3000/login'')
                   (Error ''net::ERR_CONNECTION_REFUSED'')"
       and fs = Map.empty and c = "Goto ''http://localhost:3000/login''"
       and e = "Error ''net::ERR_CONNECTION_REFUSED''"]
  by (simp add: main_trace env_fail_def run_body_def)

end
